theory Spec2Isabelle
  imports Main "HOL-Library.Multiset" "HOL-Library.Stream"
begin

section \<open>Time: datetime, timedelta and the system clock\<close>

text \<open>
  The analytics module works on naive UTC \<^verbatim>\<open>datetime\<close> values and on
  \<^verbatim>\<open>timedelta\<close> values. Both have microsecond resolution and exact integer
  arithmetic, so a \<^verbatim>\<open>datetime\<close> is modelled as the number of microseconds since a
  fixed epoch and a \<^verbatim>\<open>timedelta\<close> as a number of microseconds. Subtracting two
  datetimes gives a timedelta, adding timedeltas and comparing them is integer
  arithmetic.
\<close>

type_synonym datetime = int
type_synonym timedelta = int

definition hours :: "int \<Rightarrow> timedelta" where
  "hours n = n * 3600000000"

definition days :: "int \<Rightarrow> timedelta" where
  "days n = n * 86400000000"

definition weeks :: "int \<Rightarrow> timedelta" where
  "weeks n = days (7 * n)"

text \<open>
  \<^verbatim>\<open>datetime.utcnow()\<close> reads the ambient system clock. The clock is the stream of
  the values that the successive calls return; a call takes the head and leaves the rest.
\<close>

type_synonym clock = "datetime stream"

definition utcnow :: "clock \<Rightarrow> datetime \<times> clock" where
  "utcnow w = (shd w, stl w)"

section \<open>habit.py\<close>

datatype error = ValueError string

definition VALID_PERIODICITIES :: "string set" where
  "VALID_PERIODICITIES = {''daily'', ''weekly'', ''monthly''}"

text \<open>The dataclass \<^verbatim>\<open>Habit\<close>; its field \<^verbatim>\<open>id\<close> is \<open>habit_id\<close> here.\<close>

record habit =
  habit_id :: "int option"
  name :: string
  periodicity :: string
  created_at :: datetime
  completions :: "datetime list"

text \<open>
  \<^verbatim>\<open>Habit.__post_init__\<close>: the message lists \<^verbatim>\<open>sorted(VALID_PERIODICITIES)\<close>.
\<close>

definition post_init :: "habit \<Rightarrow> error + unit" where
  "post_init self =
     (if periodicity self \<notin> VALID_PERIODICITIES
      then Inl (ValueError (''Invalid periodicity '' @ [CHR 0x27] @ periodicity self @ [CHR 0x27]
                  @ ''. Valid: ['' @ [CHR 0x27] @ ''daily'' @ [CHR 0x27] @ '', ''
                  @ [CHR 0x27] @ ''monthly'' @ [CHR 0x27] @ '', ''
                  @ [CHR 0x27] @ ''weekly'' @ [CHR 0x27] @ '']''))
      else Inr ())"

text \<open>
  The constructor call \<^verbatim>\<open>Habit(id=..., name=..., periodicity=..., created_at=...,
  completions=...)\<close>: the generated \<^verbatim>\<open>__init__\<close> stores the fields and then runs
  \<^verbatim>\<open>__post_init__\<close>; when that raises, no object is returned. The defaults of
  \<^verbatim>\<open>created_at\<close> (the clock) and \<^verbatim>\<open>completions\<close> (the empty list) are passed
  explicitly here.
\<close>

definition Habit :: "int option \<Rightarrow> string \<Rightarrow> string \<Rightarrow> datetime \<Rightarrow> datetime list \<Rightarrow> error + habit" where
  "Habit i n p c cs =
     (let self = \<lparr>habit_id = i, name = n, periodicity = p, created_at = c, completions = cs\<rparr>
      in case post_init self of Inl e \<Rightarrow> Inl e | Inr _ \<Rightarrow> Inr self)"

text \<open>
  \<^verbatim>\<open>Habit.add_completion(when=None)\<close> appends \<^verbatim>\<open>when or datetime.utcnow()\<close>; a datetime
  is always truthy, so the clock is read exactly when \<^verbatim>\<open>when\<close> is \<^verbatim>\<open>None\<close>.
\<close>

definition add_completion :: "habit \<Rightarrow> datetime option \<Rightarrow> clock \<Rightarrow> habit \<times> clock" where
  "add_completion self when w =
     (case when of
        Some t \<Rightarrow> (self\<lparr>completions := completions self @ [t]\<rparr>, w)
      | None \<Rightarrow> (let (t, w') = utcnow w in (self\<lparr>completions := completions self @ [t]\<rparr>, w')))"

section \<open>analytics.py\<close>

text \<open>\<^verbatim>\<open>_period_delta\<close>.\<close>

definition period_delta :: "string \<Rightarrow> error + timedelta" where
  "period_delta p =
     (if p = ''daily'' then Inr (days 1)
      else if p = ''weekly'' then Inr (weeks 1)
      else if p = ''monthly'' then Inr (days 30)
      else Inl (ValueError (''Unsupported periodicity: '' @ p)))"

text \<open>
  The loop of \<^verbatim>\<open>calculate_streaks\<close>,
  \<^verbatim>\<open>for i in range(len(completions) - 2, -1, -1)\<close>. The third argument is the number of
  iterations left, that is \<open>i + 1\<close> for the loop index \<open>i\<close>; the loop starts at
  \<open>len(completions) - 1\<close> iterations and \<^verbatim>\<open>break\<close> returns the streak reached.
\<close>

fun streak_loop :: "datetime list \<Rightarrow> timedelta \<Rightarrow> nat \<Rightarrow> int \<Rightarrow> int" where
  "streak_loop cs period 0 streak = streak"
| "streak_loop cs period (Suc i) streak =
     (let delta = cs ! (i + 1) - cs ! i
      in if delta \<le> period + hours 12
         then streak_loop cs period i (streak + 1)
         else streak)"

text \<open>
  \<^verbatim>\<open>calculate_streaks(habit)\<close>. The function takes the habit only; the current time comes
  from the clock, which is read after the emptiness test and after \<^verbatim>\<open>_period_delta\<close>.
  The result is the value returned or the exception raised, with the clock left behind.
\<close>

definition calculate_streaks :: "habit \<Rightarrow> clock \<Rightarrow> (error + int) \<times> clock" where
  "calculate_streaks h w =
     (let cs = sort (completions h)
      in if cs = [] then (Inr 0, w)
         else case period_delta (periodicity h) of
                Inl e \<Rightarrow> (Inl e, w)
              | Inr period \<Rightarrow>
                  (let (now, w') = utcnow w
                   in if now - last cs > period + hours 12 then (Inr 0, w')
                      else (Inr (streak_loop cs period (length cs - 1) 1), w')))"

text \<open>\<^verbatim>\<open>longest_streak_for_habit\<close>.\<close>

definition longest_streak_for_habit :: "habit \<Rightarrow> clock \<Rightarrow> (error + int) \<times> clock" where
  "longest_streak_for_habit h w = calculate_streaks h w"

text \<open>
  \<^verbatim>\<open>list(map(lambda h: (h.name, calculate_streaks(h)), habits))\<close>: the habits are
  evaluated in input order, each call reads the clock for itself, and the first
  exception ends the evaluation.
\<close>

fun map_streaks :: "habit list \<Rightarrow> clock \<Rightarrow> (error + (string \<times> int) list) \<times> clock" where
  "map_streaks [] w = (Inr [], w)"
| "map_streaks (h # hs) w =
     (case calculate_streaks h w of
        (Inl e, w') \<Rightarrow> (Inl e, w')
      | (Inr s, w') \<Rightarrow>
          (case map_streaks hs w' of
             (Inl e, w'') \<Rightarrow> (Inl e, w'')
           | (Inr ss, w'') \<Rightarrow> (Inr ((name h, s) # ss), w'')))"

text \<open>
  Python's \<^verbatim>\<open>max(xs, key=f)\<close> on a non-empty sequence: it keeps the first element and
  replaces it only by a later element whose key is strictly greater.
\<close>

fun max_from :: "('a \<Rightarrow> int) \<Rightarrow> 'a \<Rightarrow> 'a list \<Rightarrow> 'a" where
  "max_from key best [] = best"
| "max_from key best (y # ys) = max_from key (if key y > key best then y else best) ys"

text \<open>
  \<^verbatim>\<open>longest_streak_overall\<close>; the returned value is the tuple \<^verbatim>\<open>(name, streak)\<close>.
\<close>

definition longest_streak_overall :: "habit list \<Rightarrow> clock \<Rightarrow> (error + (string \<times> int) option) \<times> clock" where
  "longest_streak_overall habits w =
     (if habits = [] then (Inr None, w)
      else case map_streaks habits w of
             (Inl e, w') \<Rightarrow> (Inl e, w')
           | (Inr streaks, w') \<Rightarrow>
               (case streaks of
                  [] \<Rightarrow> (Inr None, w')
                | x # xs \<Rightarrow> (Inr (Some (max_from snd x xs)), w')))"




section \<open>The reference definition of the streak\<close>

text \<open>
  The specification's algorithm, written from its words: the period length is 24 hours,
  7 days or 30 days; the window is the period length plus 12 hours; the completions are
  sorted ascending; an empty log gives 0; a last completion older than the window gives
  0; otherwise the streak is 1 plus the number of consecutive pairs, walking backward
  from the last pair, whose gap is at most the window, up to the first pair whose gap
  exceeds it.
\<close>

definition spec_period_length :: "string \<Rightarrow> timedelta" where
  "spec_period_length p =
     (if p = ''daily'' then hours 24 else if p = ''weekly'' then days 7 else days 30)"

definition spec_window :: "string \<Rightarrow> timedelta" where
  "spec_window p = spec_period_length p + hours 12"

definition spec_streak :: "datetime list \<Rightarrow> string \<Rightarrow> datetime \<Rightarrow> int" where
  "spec_streak cs p now =
     (let xs = sort cs
      in if xs = [] then 0
         else if now - last xs > spec_window p then 0
         else 1 + int (length (takeWhile (\<lambda>(a, b). b - a \<le> spec_window p)
                                 (rev (zip xs (tl xs))))))"

section \<open>Example habits\<close>

definition ex_daily :: habit where
  "ex_daily = \<lparr>habit_id = Some 1, name = ''Water'', periodicity = ''daily'', created_at = 0,
                completions = [hours 36, 0]\<rparr>"

definition ex_weekly :: habit where
  "ex_weekly = \<lparr>habit_id = Some 2, name = ''Workout'', periodicity = ''weekly'', created_at = 0,
                 completions = [days 20, days 14, days 0]\<rparr>"

definition ex_yearly :: habit where
  "ex_yearly = \<lparr>habit_id = None, name = ''Review'', periodicity = ''yearly'', created_at = 0,
                 completions = []\<rparr>"

definition ex_yearly_done :: habit where
  "ex_yearly_done = \<lparr>habit_id = Some 7, name = ''Audit'', periodicity = ''yearly'',
                      created_at = 0, completions = [0]\<rparr>"

definition ex_read :: habit where
  "ex_read = \<lparr>habit_id = Some 3, name = ''Read'', periodicity = ''daily'', created_at = 0,
               completions = [days 10]\<rparr>"

definition ex_run :: habit where
  "ex_run = \<lparr>habit_id = Some 4, name = ''Run'', periodicity = ''daily'', created_at = 0,
              completions = [days 10, days 9]\<rparr>"

definition ex_budget :: habit where
  "ex_budget = \<lparr>habit_id = Some 5, name = ''Budget'', periodicity = ''monthly'', created_at = 0,
                 completions = [days 1, days 10]\<rparr>"

definition ex_history :: habit where
  "ex_history = \<lparr>habit_id = Some 6, name = ''Walk'', periodicity = ''daily'', created_at = 0,
                  completions = [0, days 1, days 2, days 3, days 10]\<rparr>"

section \<open>Properties\<close>

lemmas ex_simps = ex_daily_def ex_weekly_def ex_yearly_def ex_yearly_done_def ex_read_def ex_run_def ex_budget_def
  ex_history_def VALID_PERIODICITIES_def hours_def days_def weeks_def

lemmas run_simps = calculate_streaks_def period_delta_def utcnow_def Let_def

subsection \<open>The period and the two outcomes of \<open>calculate_streaks\<close>\<close>

lemma period_delta_valid:
  "p \<in> VALID_PERIODICITIES \<Longrightarrow> period_delta p = Inr (spec_period_length p)"
  by (auto simp: VALID_PERIODICITIES_def period_delta_def spec_period_length_def
      weeks_def days_def hours_def)

lemma period_delta_invalid:
  "p \<notin> VALID_PERIODICITIES \<Longrightarrow>
   period_delta p = Inl (ValueError (''Unsupported periodicity: '' @ p))"
  by (simp add: VALID_PERIODICITIES_def period_delta_def)

lemma sort_eq_Nil: "sort xs = [] \<longleftrightarrow> xs = []"
  by (metis length_0_conv length_sort)

lemma calculate_streaks_valid:
  assumes "periodicity h \<in> VALID_PERIODICITIES"
  shows "calculate_streaks h w =
    (if completions h = [] then (Inr 0, w)
     else if shd w - last (sort (completions h)) > spec_period_length (periodicity h) + hours 12
          then (Inr 0, stl w)
          else (Inr (streak_loop (sort (completions h)) (spec_period_length (periodicity h))
                      (length (completions h) - 1) 1), stl w))"
  using period_delta_valid [OF assms]
  by (simp add: calculate_streaks_def Let_def utcnow_def sort_eq_Nil)

lemma calculate_streaks_invalid:
  assumes "periodicity h \<notin> VALID_PERIODICITIES"
  shows "calculate_streaks h w =
    (if completions h = [] then (Inr 0, w)
     else (Inl (ValueError (''Unsupported periodicity: '' @ periodicity h)), w))"
  using period_delta_invalid [OF assms]
  by (simp add: calculate_streaks_def Let_def sort_eq_Nil)

lemma add_completion_periodicity: "periodicity (fst (add_completion h when w)) = periodicity h"
  by (simp add: add_completion_def utcnow_def split: option.split)

subsection \<open>The loop counts the trailing pairs inside the window\<close>

lemma streak_loop_takeWhile:
  "k \<le> length xs - 1 \<Longrightarrow>
   streak_loop xs p k s =
     s + int (length (takeWhile (\<lambda>(a, b). b - a \<le> p + hours 12)
                        (rev (take k (zip xs (tl xs))))))"
proof (induction k arbitrary: s)
  case 0
  then show ?case by simp
next
  case (Suc k)
  let ?ps = "zip xs (tl xs)"
  from Suc.prems have k: "k < length ?ps" by simp
  then have tk: "take (Suc k) ?ps = take k ?ps @ [(xs ! k, xs ! Suc k)]"
    by (simp add: take_Suc_conv_app_nth nth_tl)
  from Suc.prems have "k \<le> length xs - 1" by simp
  from Suc.IH [OF this] show ?case
    by (simp add: tk Let_def)
qed

lemma streak_loop_bounds: "s \<le> streak_loop xs p k s \<and> streak_loop xs p k s \<le> s + int k"
proof (induction k arbitrary: s)
  case 0
  then show ?case by simp
next
  case (Suc k)
  from Suc [of "s + 1"] show ?case by (simp add: Let_def)
qed

text \<open>
  C1: for every habit with a valid periodicity, \<open>calculate_streaks\<close> returns the value of
  the reference definition \<open>spec_streak\<close> on the habit's completions, its periodicity and
  the time the clock gives: sorted ascending, 0 for an empty log, window of period length
  plus 12 hours, 0 when the last completion is older than the window, otherwise 1 plus the
  trailing pairs whose gap is at most the window (a gap equal to the window counts).
\<close>

theorem calculate_streaks_refines_spec:
  assumes "periodicity h \<in> VALID_PERIODICITIES"
  shows "fst (calculate_streaks h w)
           = Inr (spec_streak (completions h) (periodicity h) (shd w))"
proof -
  let ?xs = "sort (completions h)"
  have "streak_loop ?xs (spec_period_length (periodicity h)) (length ?xs - 1) 1 =
        1 + int (length (takeWhile (\<lambda>(a, b). b - a \<le> spec_window (periodicity h))
                           (rev (zip ?xs (tl ?xs)))))"
    using streak_loop_takeWhile [of "length ?xs - 1" ?xs "spec_period_length (periodicity h)" 1]
    by (simp add: spec_window_def del: length_sort)
  then show ?thesis
    using assms
    by (simp add: calculate_streaks_valid spec_streak_def Let_def spec_window_def sort_eq_Nil)
qed

text \<open>
  The daily habit completed at 0h and 36h, asked at 72h: both the gap and the age of the
  last completion are exactly 24h + 12h, and the streak is 2.
\<close>

theorem calculate_streaks_refines_spec_witness:
  "periodicity ex_daily \<in> VALID_PERIODICITIES \<and>
   fst (calculate_streaks ex_daily (sconst (hours 72))) = Inr 2"
  using calculate_streaks_refines_spec [of ex_daily "sconst (hours 72)"]
  by (simp add: ex_simps spec_streak_def spec_window_def spec_period_length_def)

subsection \<open>What the result depends on\<close>

text \<open>
  C2, as stated, fails: the current time is not an argument of \<open>calculate_streaks\<close>. The
  same habit, asked while the clock shows 36h and asked while it shows 80h, gives the
  streaks 2 and 0.
\<close>

theorem calculate_streaks_same_habit_differs:
  "fst (calculate_streaks ex_daily (sconst (hours 36))) = Inr 2 \<and>
   fst (calculate_streaks ex_daily (sconst (hours 80))) = Inr 0"
  by (simp add: run_simps ex_simps)

text \<open>
  C2, amended: the result of \<open>calculate_streaks\<close> is determined by the habit's completions,
  its periodicity and the next reading of the clock (the habit's other fields and the
  later readings do not matter), and its only effect is that one reading, which happens
  exactly when the completions are non-empty and the periodicity is valid.
\<close>

theorem calculate_streaks_inputs:
  "(completions h = completions h' \<longrightarrow> periodicity h = periodicity h' \<longrightarrow> shd w = shd w' \<longrightarrow>
      fst (calculate_streaks h w) = fst (calculate_streaks h' w')) \<and>
   snd (calculate_streaks h w) =
     (if completions h = [] \<or> periodicity h \<notin> VALID_PERIODICITIES then w else stl w)"
proof (cases "periodicity h \<in> VALID_PERIODICITIES")
  case True
  then show ?thesis by (auto simp: calculate_streaks_valid)
next
  case False
  then show ?thesis by (auto simp: calculate_streaks_invalid)
qed

theorem calculate_streaks_inputs_witness:
  "completions (ex_daily\<lparr>name := ''Tea'', habit_id := None\<rparr>) = completions ex_daily \<and>
   periodicity (ex_daily\<lparr>name := ''Tea'', habit_id := None\<rparr>) = periodicity ex_daily \<and>
   shd (hours 36 ## sconst (hours 80)) = shd (sconst (hours 36)) \<and>
   fst (calculate_streaks (ex_daily\<lparr>name := ''Tea'', habit_id := None\<rparr>)
          (hours 36 ## sconst (hours 80)))
     = fst (calculate_streaks ex_daily (sconst (hours 36)))"
  using calculate_streaks_inputs [of "ex_daily\<lparr>name := ''Tea'', habit_id := None\<rparr>" ex_daily
      "hours 36 ## sconst (hours 80)" "sconst (hours 36)"]
  by simp

subsection \<open>When the periodicity error is raised\<close>

text \<open>
  C3, as stated, fails: a habit whose periodicity is \<^verbatim>\<open>yearly\<close> and whose completion
  list is empty gets the streak 0, and no error, because the emptiness test comes before
  \<^verbatim>\<open>_period_delta\<close>.
\<close>

theorem calculate_streaks_invalid_empty_returns:
  "periodicity ex_yearly \<notin> VALID_PERIODICITIES \<and>
   calculate_streaks ex_yearly (sconst 0) = (Inr 0, sconst 0)"
  by (simp add: calculate_streaks_def ex_simps)

text \<open>
  C3, amended: \<open>calculate_streaks\<close> raises exactly when the completion list is non-empty
  and \<^verbatim>\<open>_period_delta\<close> raises on the habit's periodicity, and it passes that error on
  unchanged; \<^verbatim>\<open>_period_delta\<close> raises exactly on a periodicity outside daily, weekly and
  monthly, and the error is the \<^verbatim>\<open>ValueError\<close> naming the periodicity. On an empty
  completion list \<open>calculate_streaks\<close> returns 0 whatever the periodicity is.
\<close>

theorem calculate_streaks_raises_iff:
  "(fst (calculate_streaks h w) = Inl e \<longleftrightarrow>
      completions h \<noteq> [] \<and> period_delta (periodicity h) = Inl e) \<and>
   (period_delta p = Inl e' \<longleftrightarrow>
      p \<notin> VALID_PERIODICITIES \<and> e' = ValueError (''Unsupported periodicity: '' @ p)) \<and>
   (completions h = [] \<longrightarrow> calculate_streaks h w = (Inr 0, w))"
proof -
  have em: "completions h = [] \<longrightarrow> calculate_streaks h w = (Inr 0, w)"
    by (simp add: calculate_streaks_def)
  have pd: "period_delta q = Inl x \<longleftrightarrow>
      q \<notin> VALID_PERIODICITIES \<and> x = ValueError (''Unsupported periodicity: '' @ q)" for q x
  proof (cases "q \<in> VALID_PERIODICITIES")
    case True
    then show ?thesis by (simp add: period_delta_valid)
  next
    case False
    then show ?thesis by (auto simp: period_delta_invalid)
  qed
  have "fst (calculate_streaks h w) = Inl e \<longleftrightarrow>
      completions h \<noteq> [] \<and> period_delta (periodicity h) = Inl e"
  proof (cases "periodicity h \<in> VALID_PERIODICITIES")
    case True
    then show ?thesis by (simp add: calculate_streaks_valid period_delta_valid)
  next
    case False
    then show ?thesis by (auto simp: calculate_streaks_invalid period_delta_invalid)
  qed
  with pd em show ?thesis by blast
qed

theorem calculate_streaks_raises_iff_witness:
  "fst (calculate_streaks (ex_yearly\<lparr>completions := [0]\<rparr>) (sconst 0))
     = Inl (ValueError ''Unsupported periodicity: yearly'') \<and>
   period_delta ''yearly'' = Inl (ValueError ''Unsupported periodicity: yearly'') \<and>
   (\<forall>e. period_delta ''daily'' \<noteq> Inl e)"
  using calculate_streaks_raises_iff [of "ex_yearly\<lparr>completions := [0]\<rparr>" "sconst 0"
      "ValueError ''Unsupported periodicity: yearly''" "''yearly''"
      "ValueError ''Unsupported periodicity: yearly''"]
    calculate_streaks_raises_iff [of ex_daily "sconst 0" "ValueError []" "''daily''"]
  by (simp add: ex_simps)

subsection \<open>Bounds of the streak\<close>

text \<open>
  C4: every streak that \<open>calculate_streaks\<close> returns is at least 0 and at most the number
  of completions of the habit; and a streak is returned whenever the periodicity is valid.
\<close>

theorem streak_bounds:
  "(fst (calculate_streaks h w) = Inr s \<longrightarrow> 0 \<le> s \<and> s \<le> int (length (completions h))) \<and>
   (periodicity h \<in> VALID_PERIODICITIES \<longrightarrow> (\<exists>s'. fst (calculate_streaks h w) = Inr s'))"
proof (cases "periodicity h \<in> VALID_PERIODICITIES")
  case True
  have "completions h \<noteq> [] \<Longrightarrow>
        1 + int (length (completions h) - 1) = int (length (completions h))"
    by (cases "completions h") simp_all
  with True
    streak_loop_bounds [of 1 "sort (completions h)" "spec_period_length (periodicity h)"
      "length (completions h) - 1"]
  show ?thesis
    by (auto simp: calculate_streaks_valid split: if_splits)
next
  case False
  then show ?thesis by (auto simp: calculate_streaks_invalid split: if_splits)
qed

theorem streak_bounds_witness:
  "fst (calculate_streaks ex_weekly (sconst (days 20))) = Inr 2 \<and>
   periodicity ex_weekly \<in> VALID_PERIODICITIES \<and>
   (0::int) \<le> 2 \<and> 2 \<le> int (length (completions ex_weekly))"
proof -
  have h: "fst (calculate_streaks ex_weekly (sconst (days 20))) = Inr 2"
    by (simp add: run_simps ex_simps)
  have v: "periodicity ex_weekly \<in> VALID_PERIODICITIES"
    by (simp add: ex_simps)
  from h v streak_bounds [of ex_weekly "sconst (days 20)" 2] show ?thesis by simp
qed

subsection \<open>The weekly scenario\<close>

text \<open>
  C5: a weekly habit with completions at now, now - 6 days and now - 20 days, asked at
  now, has the streak 2: the gap of 14 days exceeds 7 days + 12 hours.
\<close>

theorem weekly_scenario_streak:
  "fst (calculate_streaks
         \<lparr>habit_id = i, name = n, periodicity = ''weekly'', created_at = c,
          completions = [now, now - days 6, now - days 20]\<rparr> (now ## w)) = Inr 2"
  by (simp add: run_simps days_def weeks_def hours_def)

subsection \<open>The habit with the longest streak\<close>

lemma max_from_split:
  "\<exists>pre post. b # ys = pre @ max_from key b ys # post \<and>
     (\<forall>x\<in>set pre. key x < key (max_from key b ys)) \<and>
     (\<forall>x\<in>set post. key x \<le> key (max_from key b ys))"
proof (induction ys arbitrary: b)
  case Nil
  show ?case by (intro exI [of _ "[]"]) simp
next
  case (Cons y ys)
  define b' where "b' = (if key y > key b then y else b)"
  define m where "m = max_from key b' ys"
  have step: "max_from key b (y # ys) = m" by (simp add: m_def b'_def)
  from Cons [of b'] obtain pre post where
    sp: "b' # ys = pre @ m # post" and
    lt: "\<forall>x\<in>set pre. key x < key m" and le: "\<forall>x\<in>set post. key x \<le> key m"
    unfolding m_def by blast
  have "b' \<in> set (pre @ m # post)" using sp by (metis list.set_intros(1))
  then have b'm: "key b' \<le> key m" using lt le by auto
  have "\<exists>pre post. b # y # ys = pre @ m # post \<and>
     (\<forall>x\<in>set pre. key x < key m) \<and> (\<forall>x\<in>set post. key x \<le> key m)"
  proof (cases "key y > key b")
    case True
    then have "b' = y" by (simp add: b'_def)
    with True b'm have "key b < key m" by simp
    with sp lt \<open>b' = y\<close> have "b # y # ys = (b # pre) @ m # post \<and>
        (\<forall>x\<in>set (b # pre). key x < key m)"
      by simp
    with le show ?thesis by blast
  next
    case False
    then have b': "b' = b" by (simp add: b'_def)
    show ?thesis
    proof (cases pre)
      case Nil
      with sp b' have "m = b" "post = ys" by simp_all
      with False have "b # y # ys = [] @ m # (y # ys) \<and>
          (\<forall>x\<in>set []. key x < key m) \<and> (\<forall>x\<in>set (y # ys). key x \<le> key m)"
        using le by simp
      then show ?thesis by blast
    next
      case (Cons p pre')
      with sp b' have pb: "p = b" and ys: "ys = pre' @ m # post" by simp_all
      from lt Cons pb have "key b < key m" by simp
      with False lt Cons ys have "b # y # ys = (b # y # pre') @ m # post \<and>
          (\<forall>x\<in>set (b # y # pre'). key x < key m)"
        by auto
      with le show ?thesis by blast
    qed
  qed
  with step show ?case by simp
qed

lemma find_first: "\<forall>x\<in>set pre. \<not> P x \<Longrightarrow> P m \<Longrightarrow> find P (pre @ m # post) = Some m"
  by (induction pre) simp_all

lemma max_from_find:
  "find (\<lambda>x. key x = Max (key ` set (b # ys))) (b # ys) = Some (max_from key b ys)"
proof -
  let ?m = "max_from key b ys"
  from max_from_split [of b ys key] obtain pre post where
    sp: "b # ys = pre @ ?m # post" and
    lt: "\<forall>x\<in>set pre. key x < key ?m" and le: "\<forall>x\<in>set post. key x \<le> key ?m"
    by blast
  have "Max (key ` set (pre @ ?m # post)) = key ?m"
    using lt le by (intro Max_eqI) auto
  then have mx: "Max (key ` set (b # ys)) = key ?m" using sp by simp
  have "find (\<lambda>x. key x = key ?m) (pre @ ?m # post) = Some ?m"
    using lt by (intro find_first) auto
  with mx sp show ?thesis by simp
qed

lemma calculate_streaks_returns_clock:
  assumes "completions h = [] \<or> periodicity h \<in> VALID_PERIODICITIES"
  shows "\<exists>s. calculate_streaks h w = (Inr s, if completions h = [] then w else stl w)"
proof (cases "periodicity h \<in> VALID_PERIODICITIES")
  case True
  then show ?thesis by (simp add: calculate_streaks_valid)
next
  case False
  with assms show ?thesis by (simp add: calculate_streaks_invalid)
qed

text \<open>
  When no habit with completions has an invalid periodicity, the list of pairs is built
  without an error: entry \<open>i\<close> is the name of habit \<open>i\<close> with the streak that
  \<open>calculate_streaks\<close> gives it at its own reading of the clock, which comes after one
  reading for each earlier habit that has completions.
\<close>

lemma map_streaks_returns:
  assumes "\<forall>h\<in>set hs. completions h = [] \<or> periodicity h \<in> VALID_PERIODICITIES"
  shows "\<exists>streaks w'. map_streaks hs w = (Inr streaks, w') \<and> length streaks = length hs \<and>
     (\<forall>i<length hs. fst (streaks ! i) = name (hs ! i) \<and>
        fst (calculate_streaks (hs ! i)
               (sdrop (length (filter (\<lambda>h. completions h \<noteq> []) (take i hs))) w))
          = Inr (snd (streaks ! i)))"
  using assms
proof (induction hs arbitrary: w)
  case Nil
  show ?case by simp
next
  case (Cons h hs)
  let ?w1 = "if completions h = [] then w else stl w"
  from Cons.prems have "completions h = [] \<or> periodicity h \<in> VALID_PERIODICITIES" by simp
  from calculate_streaks_returns_clock [OF this, of w] obtain s where
    s: "calculate_streaks h w = (Inr s, ?w1)" by blast
  from Cons.prems
  have "\<forall>h\<in>set hs. completions h = [] \<or> periodicity h \<in> VALID_PERIODICITIES" by simp
  from Cons.IH [OF this, of ?w1] obtain ss w' where
    ms: "map_streaks hs ?w1 = (Inr ss, w')" and len: "length ss = length hs" and
    el: "\<forall>i<length hs. fst (ss ! i) = name (hs ! i) \<and>
        fst (calculate_streaks (hs ! i)
               (sdrop (length (filter (\<lambda>h. completions h \<noteq> []) (take i hs))) ?w1))
          = Inr (snd (ss ! i))"
    by blast
  have run: "map_streaks (h # hs) w = (Inr ((name h, s) # ss), w')"
    using s ms by simp
  have "fst (((name h, s) # ss) ! i) = name ((h # hs) ! i) \<and>
        fst (calculate_streaks ((h # hs) ! i)
               (sdrop (length (filter (\<lambda>h. completions h \<noteq> []) (take i (h # hs)))) w))
          = Inr (snd (((name h, s) # ss) ! i))" if "i < length (h # hs)" for i
  proof (cases i)
    case 0
    with s show ?thesis by simp
  next
    case (Suc j)
    with that have "j < length hs" by simp
    with el have "fst (ss ! j) = name (hs ! j) \<and>
        fst (calculate_streaks (hs ! j)
               (sdrop (length (filter (\<lambda>h. completions h \<noteq> []) (take j hs))) ?w1))
          = Inr (snd (ss ! j))" by blast
    with Suc show ?thesis by (cases "completions h = []") simp_all
  qed
  with run len show ?case by (simp del: map_streaks.simps)
qed

text \<open>
  When some habit with completions has an invalid periodicity, building the list ends
  with the error of the first such habit.
\<close>

lemma map_streaks_raises:
  assumes "find (\<lambda>h. completions h \<noteq> [] \<and> periodicity h \<notin> VALID_PERIODICITIES) hs = Some b"
  shows "fst (map_streaks hs w) = Inl (ValueError (''Unsupported periodicity: '' @ periodicity b))"
  using assms
proof (induction hs arbitrary: w)
  case Nil
  then show ?case by simp
next
  case (Cons h hs)
  show ?case
  proof (cases "completions h \<noteq> [] \<and> periodicity h \<notin> VALID_PERIODICITIES")
    case True
    with Cons.prems have "b = h" by simp
    with True show ?thesis by (simp add: calculate_streaks_invalid)
  next
    case False
    then have ok: "completions h = [] \<or> periodicity h \<in> VALID_PERIODICITIES" by blast
    from calculate_streaks_returns_clock [OF ok, of w] obtain s w1 where
      s: "calculate_streaks h w = (Inr s, w1)" by blast
    from False Cons.prems
    have "find (\<lambda>h. completions h \<noteq> [] \<and> periodicity h \<notin> VALID_PERIODICITIES) hs = Some b"
      by (auto split: if_splits)
    from Cons.IH [OF this, of w1]
    have "fst (map_streaks hs w1) = Inl (ValueError (''Unsupported periodicity: '' @ periodicity b))" .
    then obtain w2 where
      "map_streaks hs w1 = (Inl (ValueError (''Unsupported periodicity: '' @ periodicity b)), w2)"
      by (cases "map_streaks hs w1") simp
    with s show ?thesis by simp
  qed
qed

text \<open>
  C6, as stated, fails: on a non-empty list that holds a habit with completions and the
  periodicity \<^verbatim>\<open>yearly\<close>, \<open>longest_streak_overall\<close> raises the error of that habit and
  returns no pair, although the list also holds a habit with streak 2.
\<close>

theorem longest_streak_overall_raises:
  "fst (longest_streak_overall [ex_run, ex_yearly_done] (sconst (days 10)))
     = Inl (ValueError ''Unsupported periodicity: yearly'')"
  by (simp add: longest_streak_overall_def run_simps ex_simps)

text \<open>
  C6, amended: \<open>longest_streak_overall\<close> returns \<open>None\<close> for the empty list. When some
  habit of the list has completions and a periodicity outside daily, weekly and monthly,
  the error of the first such habit is raised. Otherwise the result is \<open>None\<close> exactly for
  the empty list, and for a non-empty list it is the first pair, in input order, whose
  streak is the maximum of all the streaks, where pair \<open>i\<close> is the name of habit \<open>i\<close> with
  the streak \<open>calculate_streaks\<close> gives that habit.
\<close>

theorem longest_streak_overall_first_max:
  "longest_streak_overall [] w = (Inr None, w) \<and>
   (case find (\<lambda>h. completions h \<noteq> [] \<and> periodicity h \<notin> VALID_PERIODICITIES) hs of
      Some b \<Rightarrow>
        fst (longest_streak_overall hs w)
          = Inl (ValueError (''Unsupported periodicity: '' @ periodicity b))
    | None \<Rightarrow>
        (\<exists>streaks w'. map_streaks hs w = (Inr streaks, w') \<and> length streaks = length hs \<and>
           (\<forall>i<length hs. fst (streaks ! i) = name (hs ! i) \<and>
              fst (calculate_streaks (hs ! i)
                     (sdrop (length (filter (\<lambda>h. completions h \<noteq> []) (take i hs))) w))
                = Inr (snd (streaks ! i))) \<and>
           longest_streak_overall hs w =
             (Inr (find (\<lambda>x. snd x = Max (snd ` set streaks)) streaks), w') \<and>
           (fst (longest_streak_overall hs w) = Inr None \<longleftrightarrow> hs = [])))"
proof (cases "find (\<lambda>h. completions h \<noteq> [] \<and> periodicity h \<notin> VALID_PERIODICITIES) hs")
  case (Some b)
  then have ne: "hs \<noteq> []" by auto
  from map_streaks_raises [OF Some, of w] obtain w1 where
    "map_streaks hs w = (Inl (ValueError (''Unsupported periodicity: '' @ periodicity b)), w1)"
    by (cases "map_streaks hs w") simp
  with ne have "fst (longest_streak_overall hs w)
      = Inl (ValueError (''Unsupported periodicity: '' @ periodicity b))"
    by (simp add: longest_streak_overall_def)
  with Some show ?thesis by (simp add: longest_streak_overall_def)
next
  case None
  then have ok: "\<forall>h\<in>set hs. completions h = [] \<or> periodicity h \<in> VALID_PERIODICITIES"
    by (auto simp: find_None_iff)
  from map_streaks_returns [OF ok, of w] obtain streaks w' where
    ms: "map_streaks hs w = (Inr streaks, w')" and len: "length streaks = length hs" and
    el: "\<forall>i<length hs. fst (streaks ! i) = name (hs ! i) \<and>
        fst (calculate_streaks (hs ! i)
               (sdrop (length (filter (\<lambda>h. completions h \<noteq> []) (take i hs))) w))
          = Inr (snd (streaks ! i))"
    by blast
  have res: "longest_streak_overall hs w =
       (Inr (find (\<lambda>x. snd x = Max (snd ` set streaks)) streaks), w')"
  proof (cases streaks)
    case Nil
    with len ms show ?thesis by (simp add: longest_streak_overall_def)
  next
    case (Cons x xs)
    with len have "hs \<noteq> []" by auto
    with ms Cons show ?thesis
      using max_from_find [of snd x xs]
      by (simp add: longest_streak_overall_def del: find.simps set_simps)
  qed
  have "fst (longest_streak_overall hs w) = Inr None \<longleftrightarrow> hs = []"
  proof (cases streaks)
    case Nil
    with len ms show ?thesis by (simp add: longest_streak_overall_def)
  next
    case (Cons x xs)
    with len have "hs \<noteq> []" by auto
    with ms Cons show ?thesis by (simp add: longest_streak_overall_def)
  qed
  with ms len el res have "\<exists>streaks w'. map_streaks hs w = (Inr streaks, w') \<and>
      length streaks = length hs \<and>
      (\<forall>i<length hs. fst (streaks ! i) = name (hs ! i) \<and>
         fst (calculate_streaks (hs ! i)
                (sdrop (length (filter (\<lambda>h. completions h \<noteq> []) (take i hs))) w))
           = Inr (snd (streaks ! i))) \<and>
      longest_streak_overall hs w =
        (Inr (find (\<lambda>x. snd x = Max (snd ` set streaks)) streaks), w') \<and>
      (fst (longest_streak_overall hs w) = Inr None \<longleftrightarrow> hs = [])"
    by blast
  with None show ?thesis by (simp add: longest_streak_overall_def)
qed

text \<open>
  Three habits with the streaks 1, 2 and 2 at the clock reading of day 10: the first of
  the two habits with streak 2 is reported. With the yearly habit between them, its
  error is raised.
\<close>

theorem longest_streak_overall_first_max_witness:
  "fst (longest_streak_overall [ex_read, ex_run, ex_budget] (sconst (days 10)))
     = Inr (Some (''Run'', 2)) \<and>
   fst (longest_streak_overall [ex_read, ex_yearly_done, ex_run] (sconst (days 10)))
     = Inl (ValueError ''Unsupported periodicity: yearly'')"
proof -
  have f: "find (\<lambda>h. completions h \<noteq> [] \<and> periodicity h \<notin> VALID_PERIODICITIES)
             [ex_read, ex_run, ex_budget] = None"
    by (simp add: ex_simps)
  have s: "map_streaks [ex_read, ex_run, ex_budget] (sconst (days 10)) =
      (Inr [(''Read'', 1), (''Run'', 2), (''Budget'', 2)], sconst (days 10))"
    by (simp add: run_simps ex_simps)
  have m: "Max (snd ` set [(''Read'', 1::int), (''Run'', 2), (''Budget'', 2)]) = 2" by simp
  from longest_streak_overall_first_max [of "sconst (days 10)" "[ex_read, ex_run, ex_budget]"]
  have a: "fst (longest_streak_overall [ex_read, ex_run, ex_budget] (sconst (days 10)))
          = Inr (Some (''Run'', 2))"
    unfolding f s by (auto simp: m)
  have g: "find (\<lambda>h. completions h \<noteq> [] \<and> periodicity h \<notin> VALID_PERIODICITIES)
             [ex_read, ex_yearly_done, ex_run] = Some ex_yearly_done"
    by (simp add: ex_simps)
  from longest_streak_overall_first_max [of "sconst (days 10)" "[ex_read, ex_yearly_done, ex_run]"]
  have b: "fst (longest_streak_overall [ex_read, ex_yearly_done, ex_run] (sconst (days 10)))
          = Inl (ValueError ''Unsupported periodicity: yearly'')"
    unfolding g by (simp add: ex_yearly_done_def)
  from a b show ?thesis by blast
qed

subsection \<open>Looking a habit up by name\<close>



subsection \<open>The order of the completions\<close>

lemma sort_mset_cong: "mset xs = mset ys \<Longrightarrow> sort xs = sort (ys :: int list)"
  by (rule properties_for_sort) simp_all

text \<open>
  C8: replacing the completions of a habit by any reordering of them (a list with the
  same elements, each as often) does not change what \<open>calculate_streaks\<close> returns.
\<close>

theorem calculate_streaks_permutation_invariant:
  assumes "mset cs = mset (completions h)"
  shows "calculate_streaks (h\<lparr>completions := cs\<rparr>) w = calculate_streaks h w"
proof -
  have "sort cs = sort (completions h)" using assms by (rule sort_mset_cong)
  then show ?thesis by (simp add: calculate_streaks_def Let_def)
qed

theorem calculate_streaks_permutation_invariant_witness:
  "mset [days 0, days 20, days 14] = mset (completions ex_weekly) \<and>
   calculate_streaks (ex_weekly\<lparr>completions := [days 0, days 20, days 14]\<rparr>) (sconst (days 20))
     = calculate_streaks ex_weekly (sconst (days 20))"
proof -
  have h: "mset [days 0, days 20, days 14] = mset (completions ex_weekly)"
    by (simp add: ex_weekly_def)
  from h calculate_streaks_permutation_invariant [OF h] show ?thesis by simp
qed

subsection \<open>Constructed habits\<close>

text \<open>
  C9: the constructor raises on a periodicity outside daily, weekly and monthly; every
  habit it returns has a valid periodicity, \<^verbatim>\<open>_period_delta\<close> does not raise on it, and
  \<open>calculate_streaks\<close> returns a streak for it at every clock.
\<close>

theorem constructed_habit_valid:
  "(p \<notin> VALID_PERIODICITIES \<longrightarrow> (\<exists>e. Habit i n p c cs = Inl e)) \<and>
   (Habit i n p c cs = Inr h \<longrightarrow>
      periodicity h \<in> VALID_PERIODICITIES \<and>
      (\<exists>d. period_delta (periodicity h) = Inr d) \<and>
      (\<forall>w. \<exists>s. fst (calculate_streaks h w) = Inr s))"
proof (cases "p \<in> VALID_PERIODICITIES")
  case True
  then have "Habit i n p c cs =
      Inr \<lparr>habit_id = i, name = n, periodicity = p, created_at = c, completions = cs\<rparr>"
    by (simp add: Habit_def post_init_def)
  with True show ?thesis
    by (auto simp: period_delta_valid calculate_streaks_valid)
next
  case False
  then show ?thesis by (simp add: Habit_def post_init_def)
qed

theorem constructed_habit_valid_witness:
  "''yearly'' \<notin> VALID_PERIODICITIES \<and>
   (\<exists>e. Habit None ''Review'' ''yearly'' 0 [] = Inl e) \<and>
   Habit (Some 1) ''Water'' ''daily'' 0 [hours 36, 0] = Inr ex_daily \<and>
   periodicity ex_daily \<in> VALID_PERIODICITIES \<and>
   (\<exists>d. period_delta (periodicity ex_daily) = Inr d) \<and>
   (\<forall>w. \<exists>s. fst (calculate_streaks ex_daily w) = Inr s)"
proof -
  have a: "''yearly'' \<notin> VALID_PERIODICITIES" by (simp add: VALID_PERIODICITIES_def)
  have b: "Habit (Some 1) ''Water'' ''daily'' 0 [hours 36, 0] = Inr ex_daily"
    by (simp add: Habit_def post_init_def ex_simps)
  from a b constructed_habit_valid [of "''yearly''" None "''Review''" 0 "[]"]
    constructed_habit_valid [of "''daily''" "Some 1" "''Water''" 0 "[hours 36, 0]" ex_daily]
  show ?thesis by blast
qed

subsection \<open>The longest streak of one habit\<close>

text \<open>
  C10: for every habit, \<open>longest_streak_for_habit\<close> returns exactly what
  \<open>calculate_streaks\<close> returns on that habit, so it reports the current streak and not
  the longest one of the history: a daily habit completed on days 0, 1, 2, 3 and 10,
  asked on day 10, is reported with 1 although days 0 to 3 form a chain of 4.
\<close>

theorem longest_streak_for_habit_is_current:
  "longest_streak_for_habit h w = calculate_streaks h w \<and>
   fst (longest_streak_for_habit ex_history (sconst (days 10))) = Inr 1"
  by (simp add: longest_streak_for_habit_def run_simps ex_simps)

end
